theory Spec2Isabelle
  imports Main "HOL-Library.Word"
begin

section \<open>Compose Chat: the ChatApp component\<close>

text \<open>
  A shallow embedding of the React component \<^verbatim>\<open>ChatApp\<close>. The component's
  \<^verbatim>\<open>useState\<close> cells are the fields of one record, every event handler is a
  function from the record to the updated record, and the result of each awaited backend
  call is an argument of the handler that awaits it. What the component does to the outside
  world is recorded in the same record: the backend requests it issued, the lines it wrote
  with \<^verbatim>\<open>console.error\<close>, and the realtime channels it holds open.
\<close>

subsection \<open>Strings\<close>

text \<open>
  A JavaScript string is a sequence of UTF-16 code units; \<^verbatim>\<open>length\<close> and the
  HTML \<^verbatim>\<open>minLength\<close> attribute count code units.
\<close>

type_synonym code_unit = "16 word"
type_synonym jsstring = "code_unit list"

definition js :: "string \<Rightarrow> jsstring" where
  "js s = map of_char s"

text \<open>
  \<^verbatim>\<open>String.prototype.trim\<close> strips the ECMAScript WhiteSpace and LineTerminator
  code points from both ends.
\<close>

definition isWhiteSpace :: "code_unit \<Rightarrow> bool" where
  "isWhiteSpace c =
     (c \<in> set [0x9, 0xA, 0xB, 0xC, 0xD, 0x20, 0xA0, 0x1680, 0x2000, 0x2001, 0x2002, 0x2003,
       0x2004, 0x2005, 0x2006, 0x2007, 0x2008, 0x2009, 0x200A, 0x2028, 0x2029, 0x202F, 0x205F,
       0x3000, 0xFEFF])"

definition trim :: "jsstring \<Rightarrow> jsstring" where
  "trim s = rev (dropWhile isWhiteSpace (rev (dropWhile isWhiteSpace s)))"

subsection \<open>Data\<close>

text \<open>The interfaces \<^verbatim>\<open>Message\<close> and \<^verbatim>\<open>Profile\<close>.\<close>

record message =
  id_msg :: int
  created_at :: jsstring
  content :: jsstring
  user_id :: jsstring
  user_email :: jsstring
  profile_url :: "jsstring option"

record profile =
  id_prof :: jsstring
  username :: jsstring
  avatar_url :: "jsstring option"
  updated_at :: "jsstring option"

text \<open>
  Of the backend's \<^verbatim>\<open>Session\<close> the component reads \<^verbatim>\<open>session.user.id\<close> and
  \<^verbatim>\<open>session.user.email\<close>; the token is opaque.
\<close>

record user =
  id_user :: jsstring
  email_user :: "jsstring option"

record auth_session =
  access_token :: jsstring
  user :: user

datatype view = Chat | Login | Signup

text \<open>
  An awaited backend call either rejects (\<open>Thrown\<close>, with the error's message) or resolves to
  an object \<^verbatim>\<open>{ data, error }\<close> whose two fields may each be null.
\<close>

datatype 'a reply = Reply "'a option" "jsstring option" | Thrown jsstring

text \<open>
  \<^verbatim>\<open>const { data, error } = await ...; if (error) throw error;\<close> inside a
  \<^verbatim>\<open>try\<close>: the message that reaches the \<^verbatim>\<open>catch\<close>, if any.
\<close>

fun thrown :: "'a reply \<Rightarrow> jsstring option" where
  "thrown (Thrown e) = Some e"
| "thrown (Reply d e) = e"

fun data_of :: "'a reply \<Rightarrow> 'a option" where
  "data_of (Thrown e) = None"
| "data_of (Reply d e) = d"

text \<open>The requests the component sends to the backend.\<close>

datatype request =
    SelectMessages jsstring bool
  | SelectProfiles "jsstring list"
  | InsertMessage jsstring jsstring "jsstring option"
  | SignInWithPassword jsstring jsstring
  | SignUpRequest jsstring jsstring
  | SignOutRequest

text \<open>
  The component's state cells in the order of their \<^verbatim>\<open>useState\<close> calls, followed by
  its trace in the outside world: \<open>requests\<close> and \<open>console\<close> grow at the end,
  \<open>channels\<close> are the realtime channels currently subscribed, \<open>cleanup\<close> is the
  channel captured by the cleanup function that the last run of the subscription effect
  returned, and \<open>next_channel\<close> is the supply of fresh channel handles. The last field
  belongs to the password \<^verbatim>\<open><input>\<close> element on the page: whether its value
  was last changed by a user edit rather than by a script, which is what the browser
  consults before it applies \<^verbatim>\<open>minLength\<close>.
\<close>

record app =
  session :: "auth_session option"
  messages :: "message list"
  newMessage :: jsstring
  loading :: bool
  email :: jsstring
  password :: jsstring
  view :: view
  error :: "jsstring option"
  menuOpen :: bool
  profiles :: "jsstring \<rightharpoonup> profile"
  requests :: "request list"
  console :: "(jsstring \<times> jsstring) list"
  channels :: "nat list"
  cleanup :: "nat option"
  next_channel :: nat
  password_edited :: bool

definition initial :: app where
  "initial = \<lparr> session = None, messages = [], newMessage = [], loading = True, email = [],
     password = [], view = Login, error = None, menuOpen = False, profiles = Map.empty,
     requests = [], console = [], channels = [], cleanup = None, next_channel = 0,
     password_edited = False \<rparr>"

definition send :: "request \<Rightarrow> app \<Rightarrow> app" where
  "send q s = s\<lparr>requests := requests s @ [q]\<rparr>"

definition console_error :: "string \<Rightarrow> jsstring \<Rightarrow> app \<Rightarrow> app" where
  "console_error label e s = s\<lparr>console := console s @ [(js label, e)]\<rparr>"

subsection \<open>The profile cache\<close>

text \<open>
  \<^verbatim>\<open>data.reduce((acc, profile) => { acc[profile.id] = profile; return acc; }, {})\<close>
  The accumulator is an ordinary object. An assignment \<^verbatim>\<open>acc[k] = v\<close> creates or
  overwrites the own property \<^verbatim>\<open>k\<close>, except for the key
  \<^verbatim>\<open>__proto__\<close>: that one is the accessor inherited from
  \<^verbatim>\<open>Object.prototype\<close>, whose setter replaces the prototype of the accumulator
  and stores no own property. The map holds the own properties.
\<close>

definition assign ::
  "(jsstring \<rightharpoonup> profile) \<Rightarrow> jsstring \<Rightarrow> profile \<Rightarrow> (jsstring \<rightharpoonup> profile)" where
  "assign acc k v = (if k = js ''__proto__'' then acc else acc(k \<mapsto> v))"

definition profileMap :: "profile list \<Rightarrow> (jsstring \<rightharpoonup> profile)" where
  "profileMap ps = foldl (\<lambda>acc p. assign acc (id_prof p) p) Map.empty ps"

text \<open>
  \<^verbatim>\<open>fetchProfiles(userIds)\<close>. The object spread
  \<^verbatim>\<open>{ ...prev, ...profileMap }\<close> copies the own properties of both, the later
  winning: \<open>prev ++ profileMap\<close>.
\<close>

definition fetchProfiles :: "jsstring list \<Rightarrow> profile list reply \<Rightarrow> app \<Rightarrow> app" where
  "fetchProfiles userIds r s =
     (let s1 = send (SelectProfiles userIds) s in
      case thrown r of
        Some e \<Rightarrow> console_error ''Error fetching profiles:'' e s1
      | None \<Rightarrow>
         (case data_of r of
            None \<Rightarrow> s1
          | Some ps \<Rightarrow> s1\<lparr>profiles := profiles s1 ++ profileMap ps\<rparr>))"

subsection \<open>The message feed\<close>

text \<open>
  \<^verbatim>\<open>[...new Set(xs)]\<close>: a Set keeps the first occurrence of each value, in
  insertion order.
\<close>

definition set_add :: "'a list \<Rightarrow> 'a \<Rightarrow> 'a list" where
  "set_add acc x = (if x \<in> set acc then acc else acc @ [x])"

definition new_Set :: "'a list \<Rightarrow> 'a list" where
  "new_Set xs = foldl set_add [] xs"

text \<open>
  \<^verbatim>\<open>fetchMessages()\<close>. The second reply is the one awaited by the
  \<^verbatim>\<open>fetchProfiles\<close> call it starts.
\<close>

definition fetchMessages :: "message list reply \<Rightarrow> profile list reply \<Rightarrow> app \<Rightarrow> app" where
  "fetchMessages r rp s =
     (let s1 = send (SelectMessages (js ''created_at'') True) s in
      case thrown r of
        Some e \<Rightarrow> console_error ''Error fetching messages:'' e s1
      | None \<Rightarrow>
         (case data_of r of
            None \<Rightarrow> s1
          | Some ms \<Rightarrow>
              (let s2 = s1\<lparr>messages := ms\<rparr>;
                   userIds = new_Set (map user_id ms)
               in fetchProfiles userIds rp s2)))"

text \<open>
  The callback of the \<^verbatim>\<open>postgres_changes\<close> subscription, for the payload
  \<^verbatim>\<open>payload.new\<close>.
\<close>

definition onInsert :: "message \<Rightarrow> profile list reply \<Rightarrow> app \<Rightarrow> app" where
  "onInsert msg rp s =
     (let s1 = s\<lparr>messages := messages s @ [msg]\<rparr>
      in fetchProfiles [user_id msg] rp s1)"

text \<open>\<^verbatim>\<open>sendMessage\<close>, the submit handler of the message form.\<close>

definition sendMessage :: "message list reply \<Rightarrow> app \<Rightarrow> app" where
  "sendMessage r s =
     (if trim (newMessage s) = [] then s
      else case session s of
        None \<Rightarrow> s
      | Some se \<Rightarrow>
         (let s1 = send (InsertMessage (newMessage s) (id_user (user se)) (email_user (user se))) s
          in case thrown r of
               Some e \<Rightarrow> console_error ''Error sending message:'' e s1
             | None \<Rightarrow> s1\<lparr>newMessage := []\<rparr>))"

subsection \<open>Authentication\<close>

definition signIn :: "unit reply \<Rightarrow> app \<Rightarrow> app" where
  "signIn r s =
     (let s1 = s\<lparr>error := None\<rparr>;
          s2 = s1\<lparr>loading := True\<rparr>;
          s3 = send (SignInWithPassword (email s) (password s)) s2;
          s4 = (case thrown r of
                  Some e \<Rightarrow> s3\<lparr>error := Some e\<rparr>
                | None \<Rightarrow> s3\<lparr>email := [], password := [], view := Chat\<rparr>)
      in s4\<lparr>loading := False\<rparr>)"

definition signUp :: "unit reply \<Rightarrow> app \<Rightarrow> app" where
  "signUp r s =
     (let s1 = s\<lparr>error := None\<rparr>;
          s2 = s1\<lparr>loading := True\<rparr>;
          s3 = send (SignUpRequest (email s) (password s)) s2;
          s4 = (case thrown r of
                  Some e \<Rightarrow> s3\<lparr>error := Some e\<rparr>
                | None \<Rightarrow> s3\<lparr>email := [], password := [],
                           error := Some (js ''Check your email for the confirmation link.'')\<rparr>)
      in s4\<lparr>loading := False\<rparr>)"

text \<open>
  \<^verbatim>\<open>signOut\<close> does not look at the object the call resolves to; only a rejection
  reaches the \<^verbatim>\<open>catch\<close>.
\<close>

definition signOut :: "unit reply \<Rightarrow> app \<Rightarrow> app" where
  "signOut r s =
     (let s1 = s\<lparr>loading := True\<rparr>;
          s2 = send SignOutRequest s1;
          s3 = (case r of
                  Thrown e \<Rightarrow> console_error ''Error signing out:'' e s2
                | Reply d e \<Rightarrow> s2\<lparr>view := Login, menuOpen := False\<rparr>)
      in s3\<lparr>loading := False\<rparr>)"

text \<open>
  Each of the three handlers is suspended at its \<^verbatim>\<open>await\<close>: the part before it
  has set the loading flag and sent the request, React renders with that state, and the
  part after it runs when the call has settled. Other events may come in between. The two
  parts of each handler, which in sequence are the handler:
\<close>

definition signIn_begin :: "app \<Rightarrow> app" where
  "signIn_begin s =
     (let s1 = s\<lparr>error := None\<rparr>;
          s2 = s1\<lparr>loading := True\<rparr>
      in send (SignInWithPassword (email s) (password s)) s2)"

definition signIn_end :: "unit reply \<Rightarrow> app \<Rightarrow> app" where
  "signIn_end r s =
     (let s4 = (case thrown r of
                  Some e \<Rightarrow> s\<lparr>error := Some e\<rparr>
                | None \<Rightarrow> s\<lparr>email := [], password := [], view := Chat\<rparr>)
      in s4\<lparr>loading := False\<rparr>)"

definition signUp_begin :: "app \<Rightarrow> app" where
  "signUp_begin s =
     (let s1 = s\<lparr>error := None\<rparr>;
          s2 = s1\<lparr>loading := True\<rparr>
      in send (SignUpRequest (email s) (password s)) s2)"

definition signUp_end :: "unit reply \<Rightarrow> app \<Rightarrow> app" where
  "signUp_end r s =
     (let s4 = (case thrown r of
                  Some e \<Rightarrow> s\<lparr>error := Some e\<rparr>
                | None \<Rightarrow> s\<lparr>email := [], password := [],
                           error := Some (js ''Check your email for the confirmation link.'')\<rparr>)
      in s4\<lparr>loading := False\<rparr>)"

definition signOut_begin :: "app \<Rightarrow> app" where
  "signOut_begin s =
     (let s1 = s\<lparr>loading := True\<rparr>
      in send SignOutRequest s1)"

definition signOut_end :: "unit reply \<Rightarrow> app \<Rightarrow> app" where
  "signOut_end r s =
     (let s3 = (case r of
                  Thrown e \<Rightarrow> console_error ''Error signing out:'' e s
                | Reply d e \<Rightarrow> s\<lparr>view := Login, menuOpen := False\<rparr>)
      in s3\<lparr>loading := False\<rparr>)"

text \<open>
  The two callbacks of the mount effect: the continuation of
  \<^verbatim>\<open>supabase.auth.getSession()\<close> and the listener given to
  \<^verbatim>\<open>supabase.auth.onAuthStateChange\<close>.
\<close>

definition onGetSession ::
  "auth_session option \<Rightarrow> message list reply \<Rightarrow> profile list reply \<Rightarrow> app \<Rightarrow> app" where
  "onGetSession se r rp s =
     (let s1 = s\<lparr>session := se\<rparr>;
          s2 = (if se \<noteq> None then fetchMessages r rp s1 else s1)
      in s2\<lparr>loading := False\<rparr>)"

definition onAuthStateChange ::
  "auth_session option \<Rightarrow> message list reply \<Rightarrow> profile list reply \<Rightarrow> app \<Rightarrow> app" where
  "onAuthStateChange se r rp s =
     (let s1 = s\<lparr>session := se\<rparr>
      in if se \<noteq> None then fetchMessages r rp s1 else s1)"

subsection \<open>Rendering\<close>

text \<open>
  What the component returns: the loading placeholder, one of the three views, or
  \<^verbatim>\<open>null\<close> (\<open>Blank\<close>). The login and signup views carry the content of their
  red error box, the chat view the messages it lists.
\<close>

datatype screen =
    LoadingScreen
  | LoginScreen "jsstring option"
  | SignupScreen "jsstring option"
  | ChatScreen "message list"
  | Blank

text \<open>
  \<^verbatim>\<open>{error && (<div className="... text-destructive ...">{error}</div>)}\<close>: the box
  is there when \<^verbatim>\<open>error\<close> is truthy, that is neither null nor the empty string.
\<close>

definition errorBox :: "app \<Rightarrow> jsstring option" where
  "errorBox s = (case error s of None \<Rightarrow> None | Some e \<Rightarrow> if e = [] then None else Some e)"

definition renderLogin :: "app \<Rightarrow> screen" where
  "renderLogin s = LoginScreen (errorBox s)"

definition renderSignup :: "app \<Rightarrow> screen" where
  "renderSignup s = SignupScreen (errorBox s)"

definition renderChat :: "app \<Rightarrow> screen" where
  "renderChat s = (if session s = None then Blank else ChatScreen (messages s))"

text \<open>
  One pass through the body of the component, from \<^verbatim>\<open>if (loading && !session)\<close> to
  the \<^verbatim>\<open>switch\<close>. The pass reads the \<^verbatim>\<open>view\<close> it was called with; a
  \<^verbatim>\<open>setView\<close> made during the pass is returned beside the output.
\<close>

definition render :: "app \<Rightarrow> screen \<times> view option" where
  "render s =
     (if loading s \<and> session s = None then (LoadingScreen, None)
      else
        (let pending = (if session s \<noteq> None \<and> view s \<noteq> Chat then Some Chat else None);
             out = (case view s of
                      Signup \<Rightarrow> renderSignup s
                    | Chat \<Rightarrow> renderChat s
                    | Login \<Rightarrow> renderLogin s)
         in (out, pending)))"

text \<open>
  React discards the output of a pass that set state and runs the component again with the
  new state, up to 25 times in a row, after which it throws
  \<^verbatim>\<open>Too many re-renders\<close> (the result \<open>None\<close>).
\<close>

definition RE_RENDER_LIMIT :: nat where
  "RE_RENDER_LIMIT = 25"

fun renderWithHooks :: "nat \<Rightarrow> app \<Rightarrow> (screen \<times> app) option" where
  "renderWithHooks 0 s = None"
| "renderWithHooks (Suc n) s =
     (case render s of
        (out, None) \<Rightarrow> Some (out, s)
      | (out, Some v) \<Rightarrow> renderWithHooks n (s\<lparr>view := v\<rparr>))"

subsection \<open>The subscription effect\<close>

text \<open>
  \<^verbatim>\<open>supabase.removeChannel(messagesSubscription)\<close> and the cleanup function that
  calls it.
\<close>

definition removeChannel :: "nat \<Rightarrow> app \<Rightarrow> app" where
  "removeChannel c s = s\<lparr>channels := removeAll c (channels s)\<rparr>"

definition run_cleanup :: "app \<Rightarrow> app" where
  "run_cleanup s =
     (case cleanup s of
        None \<Rightarrow> s
      | Some c \<Rightarrow> (removeChannel c s)\<lparr>cleanup := None\<rparr>)"

text \<open>
  The effect's body: \<^verbatim>\<open>if (!session) return;\<close> and otherwise
  \<^verbatim>\<open>supabase.channel(...).on(...).subscribe()\<close>, returning the cleanup.
\<close>

definition subscribe_messages :: "app \<Rightarrow> app" where
  "subscribe_messages s =
     (case session s of
        None \<Rightarrow> s
      | Some se \<Rightarrow>
         (let c = next_channel s
          in s\<lparr>channels := channels s @ [c], cleanup := Some c, next_channel := Suc c\<rparr>))"

text \<open>
  The dependencies are \<^verbatim>\<open>[session, supabase]\<close>, and \<^verbatim>\<open>supabase\<close> is a new
  client object in every pass, so the effect runs after every committed render: React first
  calls the cleanup of the previous run, then the body. Unmounting calls the cleanup.
\<close>

definition messagesEffect :: "app \<Rightarrow> app" where
  "messagesEffect s = subscribe_messages (run_cleanup s)"

definition unmount :: "app \<Rightarrow> app" where
  "unmount s = run_cleanup s"

text \<open>
  Committing the output to the page. The login and the signup view have the same element
  tree, so React keeps their \<^verbatim>\<open><input>\<close> elements when one replaces the other;
  under any other output the inputs are removed, and the next form is built from new
  elements whose values React sets from the state, by script.
\<close>

definition commit_inputs :: "screen \<Rightarrow> app \<Rightarrow> app" where
  "commit_inputs out s =
     (case out of
        LoadingScreen \<Rightarrow> s\<lparr>password_edited := False\<rparr>
      | LoginScreen box \<Rightarrow> s
      | SignupScreen box \<Rightarrow> s
      | ChatScreen ms \<Rightarrow> s\<lparr>password_edited := False\<rparr>
      | Blank \<Rightarrow> s\<lparr>password_edited := False\<rparr>)"

definition rerender :: "app \<Rightarrow> app" where
  "rerender s =
     (case renderWithHooks RE_RENDER_LIMIT s of
        None \<Rightarrow> unmount s
      | Some (out, s') \<Rightarrow> messagesEffect (commit_inputs out s'))"

subsection \<open>Forms and events\<close>

text \<open>
  The browser fires a form's submit event only when no input of the form fails a declared
  constraint. \<^verbatim>\<open>required\<close> fails on an empty value and \<^verbatim>\<open>type="email"\<close>
  on a value that is not an e-mail address (the browser's test is the parameter
  \<open>valid_email\<close>). \<^verbatim>\<open>minLength={6}\<close>, on the password of the signup form
  only, fails on a value that was last changed by a user edit, is not empty and has fewer
  than 6 code units; a value set by a script is not tested.
\<close>

definition tooShort :: "nat \<Rightarrow> app \<Rightarrow> bool" where
  "tooShort n s = (password_edited s \<and> password s \<noteq> [] \<and> length (password s) < n)"

definition loginFormValid :: "(jsstring \<Rightarrow> bool) \<Rightarrow> app \<Rightarrow> bool" where
  "loginFormValid valid_email s =
     (email s \<noteq> [] \<and> valid_email (email s) \<and> password s \<noteq> [])"

definition signupFormValid :: "(jsstring \<Rightarrow> bool) \<Rightarrow> app \<Rightarrow> bool" where
  "signupFormValid valid_email s =
     (email s \<noteq> [] \<and> valid_email (email s) \<and> password s \<noteq> [] \<and> \<not> tooShort 6 s)"

definition submitLogin :: "(jsstring \<Rightarrow> bool) \<Rightarrow> app \<Rightarrow> app" where
  "submitLogin valid_email s = (if loginFormValid valid_email s then signIn_begin s else s)"

definition submitSignup :: "(jsstring \<Rightarrow> bool) \<Rightarrow> app \<Rightarrow> app" where
  "submitSignup valid_email s = (if signupFormValid valid_email s then signUp_begin s else s)"

text \<open>
  An \<^verbatim>\<open>INSERT\<close> emitted by the backend reaches the callback of every channel that is
  subscribed.
\<close>

definition deliver :: "message \<Rightarrow> profile list reply \<Rightarrow> app \<Rightarrow> app" where
  "deliver msg rp s = foldl (\<lambda>s' c. onInsert msg rp s') s (channels s)"

datatype event =
    GotSession "auth_session option" "message list reply" "profile list reply"
  | AuthStateChange "auth_session option" "message list reply" "profile list reply"
  | Inserted message "profile list reply"
  | ChangeEmail jsstring
  | ChangePassword jsstring
  | ChangeNewMessage jsstring
  | SubmitLogin
  | SignInSettled "unit reply"
  | SubmitSignup
  | SignUpSettled "unit reply"
  | SubmitMessage "message list reply"
  | ClickSignUpLink
  | ClickSignInLink
  | ClickMenu
  | ClickSignOut
  | SignOutSettled "unit reply"
  | Rendered

fun step :: "(jsstring \<Rightarrow> bool) \<Rightarrow> event \<Rightarrow> app \<Rightarrow> app" where
  "step ve (GotSession se r rp) s = onGetSession se r rp s"
| "step ve (AuthStateChange se r rp) s = onAuthStateChange se r rp s"
| "step ve (Inserted msg rp) s = deliver msg rp s"
| "step ve (ChangeEmail v) s = s\<lparr>email := v\<rparr>"
| "step ve (ChangePassword v) s = s\<lparr>password := v, password_edited := True\<rparr>"
| "step ve (ChangeNewMessage v) s = s\<lparr>newMessage := v\<rparr>"
| "step ve SubmitLogin s = submitLogin ve s"
| "step ve (SignInSettled r) s = signIn_end r s"
| "step ve SubmitSignup s = submitSignup ve s"
| "step ve (SignUpSettled r) s = signUp_end r s"
| "step ve (SubmitMessage r) s = sendMessage r s"
| "step ve ClickSignUpLink s = s\<lparr>error := None, view := Signup\<rparr>"
| "step ve ClickSignInLink s = s\<lparr>error := None, view := Login\<rparr>"
| "step ve ClickMenu s = s\<lparr>menuOpen := \<not> menuOpen s\<rparr>"
| "step ve ClickSignOut s = signOut_begin s"
| "step ve (SignOutSettled r) s = signOut_end r s"
| "step ve Rendered s = rerender s"

definition run :: "(jsstring \<Rightarrow> bool) \<Rightarrow> event list \<Rightarrow> app \<Rightarrow> app" where
  "run ve evs s = foldl (\<lambda>s' e. step ve e s') s evs"

text \<open>
  The feed after one initial load that succeeds with \<open>history\<close> and the live inserts
  \<open>evs\<close>, each with the reply to its profile request.
\<close>

definition feed ::
  "message list \<Rightarrow> profile list reply \<Rightarrow> (message \<times> profile list reply) list \<Rightarrow> app \<Rightarrow> app" where
  "feed history rp evs s =
     foldl (\<lambda>s' (msg, r). onInsert msg r s') (fetchMessages (Reply (Some history) None) rp s) evs"

text \<open>
  Signing out with a render after every step. The backend announces the end of the session
  through the auth listener; the announcement may reach the component after the sign-out
  call has settled, or before.
\<close>

definition signOut_settles_first ::
  "unit reply \<Rightarrow> message list reply \<Rightarrow> profile list reply \<Rightarrow> app \<Rightarrow> app" where
  "signOut_settles_first r rm rp s =
     rerender (onAuthStateChange None rm rp
       (rerender (signOut_end r (rerender (signOut_begin s)))))"

definition signOut_settles_last ::
  "unit reply \<Rightarrow> message list reply \<Rightarrow> profile list reply \<Rightarrow> app \<Rightarrow> app" where
  "signOut_settles_last r rm rp s =
     rerender (signOut_end r
       (rerender (onAuthStateChange None rm rp (rerender (signOut_begin s)))))"

subsection \<open>Sample values\<close>

definition alice :: auth_session where
  "alice = \<lparr> access_token = js ''t'',
     user = \<lparr> id_user = js ''u1'', email_user = Some (js ''a@x.com'') \<rparr> \<rparr>"

definition m1 :: message where
  "m1 = \<lparr> id_msg = 1, created_at = js ''2025-04-21T10:00:00Z'', content = js ''hi'',
     user_id = js ''u1'', user_email = js ''a@x.com'', profile_url = None \<rparr>"

definition m2 :: message where
  "m2 = \<lparr> id_msg = 2, created_at = js ''2025-04-21T10:05:00Z'', content = js ''hello'',
     user_id = js ''u1'', user_email = js ''a@x.com'', profile_url = None \<rparr>"

definition m3 :: message where
  "m3 = \<lparr> id_msg = 3, created_at = js ''2025-04-21T10:06:00Z'', content = js ''yo'',
     user_id = js ''u2'', user_email = js ''b@x.com'', profile_url = None \<rparr>"

definition p1 :: profile where
  "p1 = \<lparr> id_prof = js ''u1'', username = js ''alice'', avatar_url = None,
     updated_at = None \<rparr>"

definition p1_new :: profile where
  "p1_new = \<lparr> id_prof = js ''u1'', username = js ''alice2'', avatar_url = Some (js ''a.png''),
     updated_at = None \<rparr>"

definition p2 :: profile where
  "p2 = \<lparr> id_prof = js ''u2'', username = js ''bob'', avatar_url = None,
     updated_at = None \<rparr>"

text \<open>A signed-in user in the chat view with the menu open, and a filled-in signup form.\<close>

definition chatting :: app where
  "chatting = initial\<lparr>session := Some alice, messages := [m1], loading := False, view := Chat,
     menuOpen := True, profiles := [js ''u1'' \<mapsto> p1]\<rparr>"

definition signup_filled :: app where
  "signup_filled = initial\<lparr>loading := False, email := js ''a@x.com'',
     password := js ''abcdef'', view := Signup\<rparr>"

text \<open>A record whose id is the property name \<^verbatim>\<open>__proto__\<close>.\<close>

definition p_proto :: profile where
  "p_proto = \<lparr> id_prof = js ''__proto__'', username = js ''mallory'', avatar_url = None,
     updated_at = None \<rparr>"




section \<open>Auxiliary facts\<close>

subsection \<open>Strings, sets and the profile map\<close>

lemma dropWhile_all: "list_all P xs \<Longrightarrow> dropWhile P xs = []"
  by (induction xs) auto

lemma trim_empty_iff: "trim s = [] \<longleftrightarrow> list_all isWhiteSpace s"
proof
  assume "list_all isWhiteSpace s"
  then show "trim s = []" by (simp add: trim_def dropWhile_all)
next
  assume "trim s = []"
  then have "\<forall>x\<in>set (dropWhile isWhiteSpace s). isWhiteSpace x"
    by (simp add: trim_def)
  then have "dropWhile isWhiteSpace s = []"
    by (metis hd_dropWhile list.set_sel(1))
  then show "list_all isWhiteSpace s"
    by (simp add: list_all_iff)
qed

lemma set_foldl_set_add: "set (foldl set_add acc xs) = set acc \<union> set xs"
  by (induction xs arbitrary: acc) (auto simp: set_add_def)

lemma distinct_foldl_set_add: "distinct acc \<Longrightarrow> distinct (foldl set_add acc xs)"
  by (induction xs arbitrary: acc) (auto simp: set_add_def)

lemma set_new_Set: "set (new_Set xs) = set xs"
  by (simp add: new_Set_def set_foldl_set_add)

lemma distinct_new_Set: "distinct (new_Set xs)"
  by (simp add: new_Set_def distinct_foldl_set_add)

lemma find_app:
  "find P (xs @ ys) = (case find P xs of None \<Rightarrow> find P ys | Some x \<Rightarrow> Some x)"
  by (induction xs) auto

lemma foldl_assign_lookup:
  "foldl (\<lambda>acc p. assign acc (id_prof p) p) m ps k =
     (if k = js ''__proto__'' then m k
      else case find (\<lambda>p. id_prof p = k) (rev ps) of Some p \<Rightarrow> Some p | None \<Rightarrow> m k)"
  by (induction ps arbitrary: m) (auto simp: assign_def find_app split: option.splits)

lemma profileMap_lookup:
  "profileMap ps k =
     (if k = js ''__proto__'' then None else find (\<lambda>p. id_prof p = k) (rev ps))"
  by (simp add: profileMap_def foldl_assign_lookup split: option.splits)

text \<open>
  After a successful query the cache entry of every id but \<^verbatim>\<open>__proto__\<close> is the
  last record of the reply with that id, or else the entry it was; a failed query changes
  only the request trace and the console.
\<close>

lemma fetchProfiles_lookup:
  "profiles (fetchProfiles ids (Reply (Some ps) None) s) k =
     (if k = js ''__proto__'' then profiles s k
      else case find (\<lambda>p. id_prof p = k) (rev ps) of
             Some p \<Rightarrow> Some p
           | None \<Rightarrow> profiles s k)"
  by (simp add: fetchProfiles_def send_def Let_def map_add_def profileMap_lookup
      split: option.splits)

lemma fetchProfiles_failed:
  "thrown r = Some e \<Longrightarrow>
     fetchProfiles ids r s =
       s\<lparr>requests := requests s @ [SelectProfiles ids],
         console := console s @ [(js ''Error fetching profiles:'', e)]\<rparr>"
  by (simp add: fetchProfiles_def send_def console_error_def Let_def)

subsection \<open>What each handler does to the feed and to the request trace\<close>

lemma messages_fetchProfiles: "messages (fetchProfiles ids r s) = messages s"
  by (simp add: fetchProfiles_def send_def console_error_def Let_def split: option.splits)

lemma requests_fetchProfiles:
  "requests (fetchProfiles ids r s) = requests s @ [SelectProfiles ids]"
  by (simp add: fetchProfiles_def send_def console_error_def Let_def split: option.splits)

lemma messages_onInsert: "messages (onInsert m r s) = messages s @ [m]"
  by (simp add: onInsert_def messages_fetchProfiles Let_def)

lemma requests_onInsert:
  "requests (onInsert m r s) = requests s @ [SelectProfiles [user_id m]]"
  by (simp add: onInsert_def requests_fetchProfiles Let_def)

lemma messages_foldl_onInsert:
  "messages (foldl (\<lambda>s' (msg, r). onInsert msg r s') s evs) = messages s @ map fst evs"
  by (induction evs arbitrary: s) (auto simp: messages_onInsert)

lemma messages_fetchMessages_ok: "messages (fetchMessages (Reply (Some ms) None) rp s) = ms"
  by (simp add: fetchMessages_def messages_fetchProfiles send_def Let_def)

lemma requests_fetchMessages_ok:
  "requests (fetchMessages (Reply (Some ms) None) rp s) =
     requests s @ [SelectMessages (js ''created_at'') True,
                   SelectProfiles (new_Set (map user_id ms))]"
  by (simp add: fetchMessages_def requests_fetchProfiles send_def Let_def)

subsection \<open>The handlers and their two parts\<close>

lemma signIn_parts: "signIn r s = signIn_end r (signIn_begin s)"
  by (simp add: signIn_def signIn_begin_def signIn_end_def send_def Let_def
      split: option.splits)

lemma signUp_parts: "signUp r s = signUp_end r (signUp_begin s)"
  by (simp add: signUp_def signUp_begin_def signUp_end_def send_def Let_def
      split: option.splits)

lemma signOut_parts: "signOut r s = signOut_end r (signOut_begin s)"
  by (simp add: signOut_def signOut_begin_def signOut_end_def send_def console_error_def
      Let_def split: reply.splits)

subsection \<open>Rendering with a session\<close>

lemma renderWithHooks_session:
  assumes "session s \<noteq> None"
  shows "renderWithHooks (Suc (Suc n)) s = Some (ChatScreen (messages s), s\<lparr>view := Chat\<rparr>)"
proof (cases "view s = Chat")
  case True
  then have "s\<lparr>view := Chat\<rparr> = s" by simp
  with assms True show ?thesis
    by (auto simp add: render_def renderChat_def)
next
  case False
  with assms show ?thesis
    by (cases "view s") (simp_all add: render_def renderChat_def Let_def)
qed

lemma RE_RENDER_LIMIT_Suc: "RE_RENDER_LIMIT = Suc (Suc 23)"
  by (simp add: RE_RENDER_LIMIT_def)

lemma renderWithHooks_frame:
  "renderWithHooks n s = Some (out, s') \<Longrightarrow>
     channels s' = channels s \<and> cleanup s' = cleanup s \<and> session s' = session s"
  by (induction n s rule: renderWithHooks.induct)
     (auto split: prod.splits option.splits)

lemma RE_RENDER_LIMIT_Suc_24: "RE_RENDER_LIMIT = Suc 24"
  by (simp add: RE_RENDER_LIMIT_def)

lemma renderWithHooks_no_session:
  assumes "session s = None"
  shows "renderWithHooks (Suc n) s = Some (fst (render s), s)"
  using assms by (simp add: render_def Let_def)

lemma renderWithHooks_limit_no_session:
  assumes "session s = None"
  shows "renderWithHooks RE_RENDER_LIMIT s = Some (fst (render s), s)"
  unfolding RE_RENDER_LIMIT_Suc_24 using assms by (rule renderWithHooks_no_session)

lemma renderWithHooks_limit_session:
  assumes "session s \<noteq> None"
  shows "renderWithHooks RE_RENDER_LIMIT s = Some (ChatScreen (messages s), s\<lparr>view := Chat\<rparr>)"
  unfolding RE_RENDER_LIMIT_Suc using assms by (rule renderWithHooks_session)

lemma renderWithHooks_total:
  "\<exists>out. renderWithHooks RE_RENDER_LIMIT s =
     Some (out, if session s = None then s else s\<lparr>view := Chat\<rparr>)"
proof (cases "session s = None")
  case True
  with renderWithHooks_limit_no_session [OF True] show ?thesis by simp
next
  case False
  with renderWithHooks_limit_session [OF False] show ?thesis by auto
qed


lemma commit_inputs_frame:
  "session (commit_inputs out s) = session s \<and> messages (commit_inputs out s) = messages s \<and>
   profiles (commit_inputs out s) = profiles s \<and> menuOpen (commit_inputs out s) = menuOpen s \<and>
   loading (commit_inputs out s) = loading s \<and> view (commit_inputs out s) = view s \<and>
   requests (commit_inputs out s) = requests s \<and> channels (commit_inputs out s) = channels s \<and>
   cleanup (commit_inputs out s) = cleanup s"
  by (cases out) (simp_all add: commit_inputs_def)

lemma messagesEffect_frame:
  "session (messagesEffect s) = session s \<and> messages (messagesEffect s) = messages s \<and>
   profiles (messagesEffect s) = profiles s \<and> menuOpen (messagesEffect s) = menuOpen s \<and>
   loading (messagesEffect s) = loading s \<and> view (messagesEffect s) = view s \<and>
   requests (messagesEffect s) = requests s"
  by (simp add: messagesEffect_def subscribe_messages_def run_cleanup_def removeChannel_def
      Let_def split: option.splits)

lemma rerender_frame:
  "session (rerender s) = session s \<and> messages (rerender s) = messages s \<and>
   profiles (rerender s) = profiles s \<and> menuOpen (rerender s) = menuOpen s \<and>
   loading (rerender s) = loading s \<and> requests (rerender s) = requests s \<and>
   view (rerender s) = (if session s = None then view s else Chat)"
proof -
  obtain out where
    "renderWithHooks RE_RENDER_LIMIT s = Some (out, if session s = None then s else s\<lparr>view := Chat\<rparr>)"
    using renderWithHooks_total by blast
  then show ?thesis
    by (simp add: rerender_def messagesEffect_frame commit_inputs_frame)
qed

subsection \<open>Handlers do not touch the channels\<close>

lemma chan_fetchProfiles:
  "channels (fetchProfiles ids r s) = channels s \<and> cleanup (fetchProfiles ids r s) = cleanup s"
  by (simp add: fetchProfiles_def send_def console_error_def Let_def split: option.splits)

lemma chan_fetchMessages:
  "channels (fetchMessages r rp s) = channels s \<and> cleanup (fetchMessages r rp s) = cleanup s"
  by (simp add: fetchMessages_def chan_fetchProfiles send_def console_error_def Let_def
      split: option.splits)

lemma chan_onInsert:
  "channels (onInsert m rp s) = channels s \<and> cleanup (onInsert m rp s) = cleanup s"
  by (simp add: onInsert_def chan_fetchProfiles Let_def)

lemma chan_foldl_onInsert:
  "channels (foldl (\<lambda>s' c. onInsert m rp s') s cs) = channels s \<and>
   cleanup (foldl (\<lambda>s' c. onInsert m rp s') s cs) = cleanup s"
  by (induction cs arbitrary: s) (simp_all add: chan_onInsert)

lemma chan_deliver:
  "channels (deliver m rp s) = channels s \<and> cleanup (deliver m rp s) = cleanup s"
  by (simp add: deliver_def chan_foldl_onInsert)

lemma chan_sendMessage:
  "channels (sendMessage r s) = channels s \<and> cleanup (sendMessage r s) = cleanup s"
  by (simp add: sendMessage_def send_def console_error_def Let_def split: option.splits)

lemma chan_parts:
  "channels (signIn_begin s) = channels s \<and> cleanup (signIn_begin s) = cleanup s"
  "channels (signIn_end r s) = channels s \<and> cleanup (signIn_end r s) = cleanup s"
  "channels (signUp_begin s) = channels s \<and> cleanup (signUp_begin s) = cleanup s"
  "channels (signUp_end r s) = channels s \<and> cleanup (signUp_end r s) = cleanup s"
  "channels (signOut_begin s) = channels s \<and> cleanup (signOut_begin s) = cleanup s"
  "channels (signOut_end r s) = channels s \<and> cleanup (signOut_end r s) = cleanup s"
  by (simp_all add: signIn_begin_def signIn_end_def signUp_begin_def signUp_end_def
      signOut_begin_def signOut_end_def send_def console_error_def Let_def
      split: option.splits reply.splits)

lemma chan_onGetSession:
  "channels (onGetSession se r rp s) = channels s \<and>
   cleanup (onGetSession se r rp s) = cleanup s"
  by (simp add: onGetSession_def chan_fetchMessages Let_def)

lemma chan_onAuthStateChange:
  "channels (onAuthStateChange se r rp s) = channels s \<and>
   cleanup (onAuthStateChange se r rp s) = cleanup s"
  by (simp add: onAuthStateChange_def chan_fetchMessages Let_def)

lemma session_onAuthStateChange: "session (onAuthStateChange se r rp s) = se"
  by (simp add: onAuthStateChange_def fetchMessages_def fetchProfiles_def send_def
      console_error_def Let_def split: option.splits)

subsection \<open>The channel held is the one the cleanup will remove\<close>

lemma held_run_cleanup:
  "channels s = (case cleanup s of None \<Rightarrow> [] | Some c \<Rightarrow> [c]) \<Longrightarrow>
   channels (run_cleanup s) = [] \<and> cleanup (run_cleanup s) = None \<and>
   session (run_cleanup s) = session s"
  by (simp add: run_cleanup_def removeChannel_def split: option.splits)

lemma held_messagesEffect:
  assumes "channels s = (case cleanup s of None \<Rightarrow> [] | Some c \<Rightarrow> [c])"
  shows "channels (messagesEffect s) =
           (case cleanup (messagesEffect s) of None \<Rightarrow> [] | Some c \<Rightarrow> [c]) \<and>
         (channels (messagesEffect s) = [] \<longleftrightarrow> session s = None)"
  using held_run_cleanup [OF assms]
  by (simp add: messagesEffect_def subscribe_messages_def Let_def split: option.splits)

lemma held_rerender:
  assumes "channels s = (case cleanup s of None \<Rightarrow> [] | Some c \<Rightarrow> [c])"
  shows "channels (rerender s) = (case cleanup (rerender s) of None \<Rightarrow> [] | Some c \<Rightarrow> [c])"
proof (cases "renderWithHooks RE_RENDER_LIMIT s")
  case None
  then show ?thesis
    using held_run_cleanup [OF assms] by (simp add: rerender_def unmount_def)
next
  case (Some a)
  obtain out s' where a: "a = (out, s')" by (cases a)
  let ?c = "commit_inputs out s'"
  from Some a renderWithHooks_frame
  have "channels s' = channels s \<and> cleanup s' = cleanup s" by blast
  with assms have "channels ?c = (case cleanup ?c of None \<Rightarrow> [] | Some c \<Rightarrow> [c])"
    by (simp add: commit_inputs_frame)
  from held_messagesEffect [OF this]
  have "channels (messagesEffect ?c) =
      (case cleanup (messagesEffect ?c) of None \<Rightarrow> [] | Some c \<Rightarrow> [c])" by (rule conjunct1)
  with Some a show ?thesis by (simp add: rerender_def)
qed

lemma rerender_session:
  assumes "channels s = (case cleanup s of None \<Rightarrow> [] | Some c \<Rightarrow> [c])"
  shows "channels (rerender s) = [] \<longleftrightarrow> session s = None"
proof (cases "renderWithHooks RE_RENDER_LIMIT s")
  case None
  have "session s = None"
  proof (rule ccontr)
    assume "session s \<noteq> None"
    from renderWithHooks_session [OF this, of 23] None show False
      by (simp only: RE_RENDER_LIMIT_Suc option.distinct)
  qed
  with None show ?thesis
    using held_run_cleanup [OF assms] by (simp add: rerender_def unmount_def)
next
  case (Some a)
  obtain out s' where a: "a = (out, s')" by (cases a)
  let ?c = "commit_inputs out s'"
  from Some a renderWithHooks_frame
  have f: "channels s' = channels s \<and> cleanup s' = cleanup s \<and> session s' = session s"
    by blast
  with assms have "channels ?c = (case cleanup ?c of None \<Rightarrow> [] | Some c \<Rightarrow> [c])"
    by (simp add: commit_inputs_frame)
  from held_messagesEffect [OF this]
  have "channels (messagesEffect ?c) = [] \<longleftrightarrow> session ?c = None" by (rule conjunct2)
  with Some a f show ?thesis by (simp add: rerender_def commit_inputs_frame)
qed

lemma held_step:
  assumes "channels s = (case cleanup s of None \<Rightarrow> [] | Some c \<Rightarrow> [c])"
  shows "channels (step ve ev s) =
           (case cleanup (step ve ev s) of None \<Rightarrow> [] | Some c \<Rightarrow> [c])"
proof (cases ev)
  case Rendered
  then show ?thesis using held_rerender [OF assms] by simp
qed (use assms in \<open>simp_all add: chan_onGetSession chan_onAuthStateChange chan_deliver
      chan_sendMessage chan_parts submitLogin_def submitSignup_def\<close>)

lemma held_foldl:
  "channels s = (case cleanup s of None \<Rightarrow> [] | Some c \<Rightarrow> [c]) \<Longrightarrow>
   channels (foldl (\<lambda>s' e. step ve e s') s evs) =
     (case cleanup (foldl (\<lambda>s' e. step ve e s') s evs) of None \<Rightarrow> [] | Some c \<Rightarrow> [c])"
  by (induction evs arbitrary: s) (simp_all add: held_step)

lemma held_run:
  "channels (run ve evs initial) =
     (case cleanup (run ve evs initial) of None \<Rightarrow> [] | Some c \<Rightarrow> [c])"
  unfolding run_def by (rule held_foldl) (simp add: initial_def)

subsection \<open>Where registration requests come from\<close>














section \<open>The claims\<close>

subsection \<open>C1: duplicate ids in the feed\<close>

text \<open>
  The feed does not stay free of duplicates: when the initial load returned message 1 and
  the subscription then delivers message 1 again, the displayed sequence holds the id 1
  twice.
\<close>

theorem feed_redelivery_counterexample:
  "\<not> distinct (map id_msg (messages
        (feed [m1] (Reply (Some []) None) [(m1, Reply (Some []) None)] initial)))"
  by (simp add: feed_def messages_onInsert messages_fetchMessages_ok)

text \<open>
  C1, as the code has it: after one successful initial load and any sequence of live
  inserts, the displayed sequence is the loaded history followed by every delivered message
  in delivery order, nothing removed. It is free of duplicate ids exactly when the history
  and the delivered messages together carry pairwise distinct ids.
\<close>

theorem feed_appends_all:
  "messages (feed history rp evs s) = history @ map fst evs \<and>
   (distinct (map id_msg (messages (feed history rp evs s))) \<longleftrightarrow>
      distinct (map id_msg history @ map (id_msg \<circ> fst) evs))"
  by (simp add: feed_def messages_foldl_onInsert messages_fetchMessages_ok)

subsection \<open>C2: one live subscription\<close>

text \<open>
  C2: after every sequence of events from the mounted component (auth changes, inserts,
  form submissions, clicks, renders, in any order) at most one realtime channel is
  subscribed. The render that follows an auth change to a session leaves exactly one
  channel, the render that follows an auth change to no session leaves none, and
  unmounting leaves none. An insert emitted by the backend is therefore appended at most
  once.
\<close>

theorem one_live_subscription:
  "length (channels (run ve evs initial)) \<le> 1 \<and>
   length (channels (rerender (onAuthStateChange (Some se) r rp (run ve evs initial)))) = 1 \<and>
   channels (rerender (onAuthStateChange None r rp (run ve evs initial))) = [] \<and>
   channels (unmount (run ve evs initial)) = [] \<and>
   length (messages (deliver msg rp (run ve evs initial))) \<le>
     Suc (length (messages (run ve evs initial)))"
proof -
  let ?s = "run ve evs initial"
  have inv: "channels ?s = (case cleanup ?s of None \<Rightarrow> [] | Some c \<Rightarrow> [c])"
    by (rule held_run)
  have 1: "length (channels ?s) \<le> 1"
    using inv by (simp split: option.splits)
  have inv': "channels (onAuthStateChange x r rp ?s) =
      (case cleanup (onAuthStateChange x r rp ?s) of None \<Rightarrow> [] | Some c \<Rightarrow> [c])" for x
    using inv by (simp add: chan_onAuthStateChange)
  have 2: "length (channels (rerender (onAuthStateChange (Some se) r rp ?s))) = 1"
    using rerender_session [OF inv' [of "Some se"]] held_rerender [OF inv' [of "Some se"]]
    by (simp add: session_onAuthStateChange split: option.splits)
  have 3: "channels (rerender (onAuthStateChange None r rp ?s)) = []"
    using rerender_session [OF inv' [of None]] by (simp add: session_onAuthStateChange)
  have 4: "channels (unmount ?s) = []"
    using held_run_cleanup [OF inv] by (simp add: unmount_def)
  have 5: "length (messages (deliver msg rp ?s)) \<le> Suc (length (messages ?s))"
    using inv by (simp add: deliver_def messages_onInsert split: option.splits)
  from 1 2 3 4 5 show ?thesis by blast
qed

subsection \<open>C3: sending nothing\<close>

text \<open>
  C3: when the input buffer is empty or holds only white space, or when there is no
  session, \<open>sendMessage\<close> returns the state it was given: no request is issued and no
  cell changes.
\<close>

theorem sendMessage_noop:
  "list_all isWhiteSpace (newMessage s) \<or> session s = None \<Longrightarrow> sendMessage r s = s"
  by (auto simp: sendMessage_def trim_empty_iff)

theorem sendMessage_noop_witness:
  "(list_all isWhiteSpace
      (newMessage (initial\<lparr>session := Some alice, newMessage := js ''   ''\<rparr>))
      \<or> session (initial\<lparr>session := Some alice, newMessage := js ''   ''\<rparr>) = None) \<and>
   requests (sendMessage (Reply None None)
      (initial\<lparr>session := Some alice, newMessage := js ''   ''\<rparr>)) = [] \<and>
   requests (sendMessage (Reply None None)
      (initial\<lparr>session := Some alice, newMessage := js []\<rparr>)) = []"
proof -
  have h: "list_all isWhiteSpace
      (newMessage (initial\<lparr>session := Some alice, newMessage := js ''   ''\<rparr>))"
    by (simp add: js_def isWhiteSpace_def)
  have h': "list_all isWhiteSpace
      (newMessage (initial\<lparr>session := Some alice, newMessage := js []\<rparr>))"
    by (simp add: js_def)
  show ?thesis
    using h sendMessage_noop [OF disjI1 [OF h], of "Reply None None"]
      sendMessage_noop [OF disjI1 [OF h'], of "Reply None None"]
    by (simp add: initial_def)
qed

subsection \<open>C4: signing out\<close>

text \<open>
  Signing out does not empty the feed or the profile cache: after \<open>signOut\<close> and the
  auth change to no session that the backend sends, the message and the profile that were
  there are still there.
\<close>

theorem signOut_clears_feed_counterexample:
  "\<not> (messages (onAuthStateChange None (Reply None None) (Reply None None)
          (signOut (Reply None None) chatting)) = [] \<and>
       profiles (onAuthStateChange None (Reply None None) (Reply None None)
          (signOut (Reply None None) chatting)) = Map.empty)"
  by (simp add: onAuthStateChange_def signOut_def send_def chatting_def initial_def Let_def)

text \<open>
  C4, as the code has it: \<open>signOut\<close> sends the sign-out request and, when the call
  resolves, closes the menu and clears the loading flag; the session becomes empty with the
  auth change by which the backend announces its end. With a render after every step, and
  whether the call settles before that auth change or after it, the component ends with no
  session, the menu closed and the loading flag cleared, and with the feed and the profile
  cache exactly as they were before signing out. When the call settles after the auth
  change, the view ends at login.
\<close>

theorem signOut_effect:
  "requests (signOut_begin s) = requests s @ [SignOutRequest] \<and>
   session (signOut_settles_first (Reply d e) rm rp s) = None \<and>
   menuOpen (signOut_settles_first (Reply d e) rm rp s) = False \<and>
   loading (signOut_settles_first (Reply d e) rm rp s) = False \<and>
   messages (signOut_settles_first (Reply d e) rm rp s) = messages s \<and>
   profiles (signOut_settles_first (Reply d e) rm rp s) = profiles s \<and>
   session (signOut_settles_last (Reply d e) rm rp s) = None \<and>
   menuOpen (signOut_settles_last (Reply d e) rm rp s) = False \<and>
   loading (signOut_settles_last (Reply d e) rm rp s) = False \<and>
   messages (signOut_settles_last (Reply d e) rm rp s) = messages s \<and>
   profiles (signOut_settles_last (Reply d e) rm rp s) = profiles s \<and>
   view (signOut_settles_last (Reply d e) rm rp s) = Login"
  by (simp add: signOut_settles_first_def signOut_settles_last_def rerender_frame
      onAuthStateChange_def signOut_begin_def signOut_end_def send_def Let_def)

subsection \<open>C5: the message after signing up\<close>

text \<open>
  The confirmation message is not kept off the error path: after a successful
  \<open>signUp\<close> the \<open>error\<close> cell is not empty.
\<close>

theorem signUp_error_channel_counterexample:
  "\<not> (session (signUp (Reply None None) signup_filled) = None \<and>
       view (signUp (Reply None None) signup_filled) \<noteq> Chat \<and>
       error (signUp (Reply None None) signup_filled) = None)"
  by (simp add: signUp_def send_def Let_def)

text \<open>
  C5, as the code has it: a successful \<open>signUp\<close> stores
  \<^verbatim>\<open>Check your email for the confirmation link.\<close> in the \<open>error\<close> cell, the
  cell that also carries failures, and leaves the session and the view as they were; it
  clears the two inputs and the loading flag. With no session and the signup view, the next
  render shows the signup view with that text in its error box.
\<close>

theorem signUp_success:
  "error (signUp (Reply d None) s) = Some (js ''Check your email for the confirmation link.'') \<and>
   session (signUp (Reply d None) s) = session s \<and>
   view (signUp (Reply d None) s) = view s \<and>
   loading (signUp (Reply d None) s) = False \<and>
   email (signUp (Reply d None) s) = [] \<and>
   password (signUp (Reply d None) s) = [] \<and>
   requests (signUp (Reply d None) s) = requests s @ [SignUpRequest (email s) (password s)] \<and>
   (session s = None \<and> view s = Signup \<longrightarrow>
      render (signUp (Reply d None) s) =
        (SignupScreen (Some (js ''Check your email for the confirmation link.'')), None))"
  by (simp add: signUp_def send_def Let_def render_def renderSignup_def errorBox_def js_def)

theorem signUp_success_witness:
  "session signup_filled = None \<and> view signup_filled = Signup \<and>
   render (signUp (Reply None None) signup_filled) =
     (SignupScreen (Some (js ''Check your email for the confirmation link.'')), None) \<and>
   requests (signUp (Reply None None) signup_filled) =
     [SignUpRequest (js ''a@x.com'') (js ''abcdef'')]"
  using signUp_success [of None signup_filled]
  by (simp add: signup_filled_def initial_def)

subsection \<open>C6: the password's minimum length\<close>




subsection \<open>C7: the initial load\<close>

text \<open>
  C7: when the history query succeeds, \<open>fetchMessages\<close> has asked for the messages
  ordered by \<^verbatim>\<open>created_at\<close> ascending, shows exactly the reply in the reply's order
  whatever the feed held before (so a reply sorted by \<^verbatim>\<open>created_at\<close> is shown
  sorted), and then asks for the profiles of the user ids of the reply, each id once and no
  other id.
\<close>

theorem fetchMessages_success:
  "messages (fetchMessages (Reply (Some ms) None) rp s) = ms \<and>
   requests (fetchMessages (Reply (Some ms) None) rp s) =
     requests s @ [SelectMessages (js ''created_at'') True,
                   SelectProfiles (new_Set (map user_id ms))] \<and>
   distinct (new_Set (map user_id ms)) \<and>
   set (new_Set (map user_id ms)) = user_id ` set ms \<and>
   (sorted_wrt le (map created_at ms) \<longrightarrow>
      sorted_wrt le (map created_at (messages (fetchMessages (Reply (Some ms) None) rp s))))"
  by (simp add: messages_fetchMessages_ok distinct_new_Set set_new_Set
      requests_fetchMessages_ok)

theorem fetchMessages_success_witness:
  "sorted_wrt lexordp_eq (map created_at [m1, m2, m3]) \<and>
   messages (fetchMessages (Reply (Some [m1, m2, m3]) None) (Reply None None) chatting) =
     [m1, m2, m3] \<and>
   requests (fetchMessages (Reply (Some [m1, m2, m3]) None) (Reply None None) chatting) =
     [SelectMessages (js ''created_at'') True, SelectProfiles [js ''u1'', js ''u2'']]"
proof -
  have h: "sorted_wrt lexordp_eq (map created_at [m1, m2, m3])"
    by (simp add: m1_def m2_def m3_def js_def)
  have n: "new_Set (map user_id [m1, m2, m3]) = [js ''u1'', js ''u2'']"
    by (simp add: new_Set_def set_add_def m1_def m2_def m3_def js_def)
  show ?thesis
    using h n fetchMessages_success [of "[m1, m2, m3]" "Reply None None" chatting lexordp_eq]
    by (simp add: chatting_def initial_def)
qed

subsection \<open>C8: a live insert\<close>

text \<open>
  The profile request is not held back for a cached sender: with the profile of
  \<^verbatim>\<open>u1\<close> in the cache, an insert from \<^verbatim>\<open>u1\<close> still sends a request.
\<close>

theorem onInsert_cached_counterexample:
  "\<not> (user_id m1 \<in> dom (profiles (initial\<lparr>profiles := [js ''u1'' \<mapsto> p1]\<rparr>)) \<longrightarrow>
        requests (onInsert m1 (Reply (Some [p1]) None) (initial\<lparr>profiles := [js ''u1'' \<mapsto> p1]\<rparr>))
          = requests (initial\<lparr>profiles := [js ''u1'' \<mapsto> p1]\<rparr>))"
  by (simp add: requests_onInsert m1_def)

text \<open>
  C8, as the code has it: the handler appends every delivered message at the end of the
  displayed sequence and sends one profile request for the message's single user id, whether
  or not that id is in the cache.
\<close>

theorem onInsert_effect:
  "messages (onInsert msg rp s) = messages s @ [msg] \<and>
   requests (onInsert msg rp s) = requests s @ [SelectProfiles [user_id msg]]"
  by (simp add: messages_onInsert requests_onInsert)

subsection \<open>C9: merging profiles\<close>

text \<open>
  C9 fails for one id. A successful query returns three records, with the ids
  \<^verbatim>\<open>__proto__\<close>, \<^verbatim>\<open>u1\<close> and \<^verbatim>\<open>u2\<close>, to a cache that holds an
  entry for \<^verbatim>\<open>u1\<close>: the entry of \<^verbatim>\<open>u1\<close> is overwritten and the record
  of \<^verbatim>\<open>u2\<close> is added, but the record with the id \<^verbatim>\<open>__proto__\<close> is not
  merged, and the cache has no entry for it.
\<close>

theorem fetchProfiles_proto_not_merged:
  "profiles (fetchProfiles [js ''__proto__'', js ''u1'', js ''u2'']
      (Reply (Some [p_proto, p1_new, p2]) None) chatting) (js ''__proto__'') = None \<and>
   profiles (fetchProfiles [js ''__proto__'', js ''u1'', js ''u2'']
      (Reply (Some [p_proto, p1_new, p2]) None) chatting) (js ''u1'') = Some p1_new \<and>
   profiles (fetchProfiles [js ''__proto__'', js ''u1'', js ''u2'']
      (Reply (Some [p_proto, p1_new, p2]) None) chatting) (js ''u2'') = Some p2"
  by (simp add: fetchProfiles_lookup chatting_def initial_def p_proto_def p1_new_def p2_def
      js_def)

subsection \<open>C10: a session forces the chat view\<close>

text \<open>
  C10: with a session, whatever the loading flag and the stored view, the render that React
  commits is the chat view and leaves the view cell at \<open>Chat\<close>; when the stored view was
  not \<open>Chat\<close>, the first pass is the one that sets it.
\<close>

theorem session_forces_chat:
  "session s \<noteq> None \<Longrightarrow>
     renderWithHooks RE_RENDER_LIMIT s = Some (ChatScreen (messages s), s\<lparr>view := Chat\<rparr>) \<and>
     (view s \<noteq> Chat \<longrightarrow> snd (render s) = Some Chat)"
proof -
  assume a: "session s \<noteq> None"
  have "renderWithHooks RE_RENDER_LIMIT s = Some (ChatScreen (messages s), s\<lparr>view := Chat\<rparr>)"
    unfolding RE_RENDER_LIMIT_Suc using a by (rule renderWithHooks_session)
  moreover have "view s \<noteq> Chat \<longrightarrow> snd (render s) = Some Chat"
    using a by (auto simp add: render_def Let_def)
  ultimately show ?thesis by blast
qed

theorem session_forces_chat_witness:
  "session (initial\<lparr>session := Some alice, loading := False\<rparr>) \<noteq> None \<and>
   view (initial\<lparr>session := Some alice, loading := False\<rparr>) \<noteq> Chat \<and>
   snd (render (initial\<lparr>session := Some alice, loading := False\<rparr>)) = Some Chat \<and>
   renderWithHooks RE_RENDER_LIMIT (initial\<lparr>session := Some alice, loading := False\<rparr>) =
     Some (ChatScreen [], initial\<lparr>session := Some alice, loading := False, view := Chat\<rparr>)"
proof -
  have h: "session (initial\<lparr>session := Some alice, loading := False\<rparr>) \<noteq> None" by simp
  show ?thesis using session_forces_chat [OF h] by (simp add: initial_def)
qed

end
